theory Spec2Isabelle
  imports Complex_Main "HOL-Library.AList"
begin

section \<open>Python values and dictionaries\<close>

text \<open>
  Filters and payloads are \<^verbatim>\<open>dict[str, Any]\<close>. A value of type \<^verbatim>\<open>Any\<close> is a
  JSON-like Python value; a dict is an association list in insertion order, as a
  Python dict iterates.
\<close>

datatype pyval =
    PNone
  | PBool bool
  | PInt int
  | PFloat real
  | PStr string
  | PList "pyval list"
  | PDict "(string \<times> pyval) list"

type_synonym pydict = "(string \<times> pyval) list"

text \<open>Python truthiness, as used by \<^verbatim>\<open>if x:\<close> and \<^verbatim>\<open>x or y\<close>.\<close>

fun truthy :: "pyval \<Rightarrow> bool" where
  "truthy PNone = False"
| "truthy (PBool b) = b"
| "truthy (PInt n) = (n \<noteq> 0)"
| "truthy (PFloat x) = (x \<noteq> 0)"
| "truthy (PStr s) = (s \<noteq> [])"
| "truthy (PList xs) = (xs \<noteq> [])"
| "truthy (PDict d) = (d \<noteq> [])"

text \<open>\<^verbatim>\<open>d.get(k, default)\<close>.\<close>

definition dict_get :: "pydict \<Rightarrow> string \<Rightarrow> pyval \<Rightarrow> pyval" where
  "dict_get d k dflt = (case map_of d k of Some v \<Rightarrow> v | None \<Rightarrow> dflt)"

text \<open>
  \<^verbatim>\<open>d[k] = v\<close> is \<open>AList.update k v d\<close>: an existing key keeps its position, a new
  key is appended. \<^verbatim>\<open>flat.update(part)\<close> assigns the items of \<open>part\<close> in order.
\<close>

definition dict_update :: "pydict \<Rightarrow> pydict \<Rightarrow> pydict" where
  "dict_update flat part = fold (\<lambda>(k, v). AList.update k v) part flat"

text \<open>\<^verbatim>\<open>d or {}\<close> for an optional dict: \<^verbatim>\<open>None\<close> and the empty dict are falsy.\<close>

definition or_empty :: "pydict option \<Rightarrow> pydict" where
  "or_empty d = (case d of None \<Rightarrow> [] | Some p \<Rightarrow> if p = [] then [] else p)"

section \<open>Items\<close>

text \<open>
  \<^verbatim>\<open>VecDBItem\<close> and its subclass \<^verbatim>\<open>MilvusVecDBItem\<close> (module \<^verbatim>\<open>memos.vec_dbs.item\<close>)
  are plain field containers. The fields \<^verbatim>\<open>vector\<close>, \<^verbatim>\<open>payload\<close> and \<^verbatim>\<open>score\<close> are
  optional; \<^verbatim>\<open>memory\<close> and \<^verbatim>\<open>original_text\<close> hold whatever the payload lookup gave.
\<close>

record vec_item =
  item_id :: string
  vector :: "real list option"
  payload :: "pydict option"
  score :: "real option"

record milvus_item = vec_item +
  memory :: pyval
  original_text :: pyval

text \<open>What a caller may hand to \<^verbatim>\<open>add\<close>, \<^verbatim>\<open>update\<close> and \<^verbatim>\<open>upsert\<close>.\<close>

datatype any_item = Milvus milvus_item | Plain vec_item | Raw pydict

text \<open>What \<^verbatim>\<open>_prepare_for_qdrant\<close> returns: \<^verbatim>\<open>VecDBItem | dict\<close>.\<close>

datatype prepared = PItem vec_item | PRaw pydict

definition to_milvus_item :: "vec_item \<Rightarrow> milvus_item" where
  "to_milvus_item item =
     (let p = or_empty (payload item) in
      \<lparr> item_id = item_id item,
        vector = vector item,
        payload = Some p,
        score = score item,
        memory = dict_get p ''memory'' (dict_get p ''preference'' (PStr '''')),
        original_text = dict_get p ''original_text'' (PStr '''') \<rparr>)"

definition prepare_for_qdrant :: "any_item \<Rightarrow> prepared" where
  "prepare_for_qdrant item =
     (case item of
        Milvus m \<Rightarrow>
          (let p0 = or_empty (payload m);
               p1 = (if truthy (memory m) then AList.update ''memory'' (memory m) p0 else p0);
               p2 = (if truthy (original_text m)
                     then AList.update ''original_text'' (original_text m) p1 else p1)
           in PItem \<lparr> item_id = item_id m, vector = vector m, payload = Some p2,
                      score = score m \<rparr>)
      | Plain v \<Rightarrow> PItem v
      | Raw d \<Rightarrow> PRaw d)"

section \<open>The outgoing item shape, as described\<close>

text \<open>
  The description of an outgoing item, in its own words: \<open>memory\<close> is the payload's
  \<^verbatim>\<open>"memory"\<close> value if the key is present, otherwise its \<^verbatim>\<open>"preference"\<close> value if
  present, otherwise the empty string; \<open>original_text\<close> is the payload's
  \<^verbatim>\<open>"original_text"\<close> value if present, otherwise the empty string. An item without a
  payload has no key present.
\<close>

definition payload_of :: "vec_item \<Rightarrow> pydict" where
  "payload_of v = (case payload v of None \<Rightarrow> [] | Some p \<Rightarrow> p)"

definition canonical_memory :: "pydict \<Rightarrow> pyval" where
  "canonical_memory p =
     (case map_of p ''memory'' of
        Some v \<Rightarrow> v
      | None \<Rightarrow> (case map_of p ''preference'' of Some v \<Rightarrow> v | None \<Rightarrow> PStr []))"

definition canonical_original_text :: "pydict \<Rightarrow> pyval" where
  "canonical_original_text p =
     (case map_of p ''original_text'' of Some v \<Rightarrow> v | None \<Rightarrow> PStr [])"

definition outgoing :: "vec_item \<Rightarrow> milvus_item \<Rightarrow> bool" where
  "outgoing v m =
     (item_id m = item_id v \<and> vector m = vector v \<and> score m = score v \<and>
      payload m = Some (payload_of v) \<and>
      memory m = canonical_memory (payload_of v) \<and>
      original_text m = canonical_original_text (payload_of v))"

section \<open>Filter flattening\<close>

text \<open>The loop of \<^verbatim>\<open>_flatten_milvus_filter\<close> over \<^verbatim>\<open>filter["and"]\<close>.\<close>

fun merge_parts :: "pyval list \<Rightarrow> pydict \<Rightarrow> pydict" where
  "merge_parts [] flat = flat"
| "merge_parts (PDict d # parts) flat = merge_parts parts (dict_update flat d)"
| "merge_parts (_ # parts) flat = merge_parts parts flat"

definition flatten_milvus_filter :: "pydict option \<Rightarrow> pydict option" where
  "flatten_milvus_filter flt =
     (case flt of
        None \<Rightarrow> None
      | Some f \<Rightarrow>
          (case map_of f ''and'' of
             Some (PList parts) \<Rightarrow>
               (let flat = merge_parts parts [] in if flat = [] then None else Some flat)
           | _ \<Rightarrow> Some f))"

section \<open>Flattening against its description\<close>

text \<open>
  The description of flattening, in its own words: the dict-valued sub-clauses, merged in
  order as mappings, a later clause overriding the keys of an earlier one.
\<close>

fun dict_clauses :: "pyval list \<Rightarrow> pydict list" where
  "dict_clauses [] = []"
| "dict_clauses (PDict d # cs) = d # dict_clauses cs"
| "dict_clauses (_ # cs) = dict_clauses cs"

definition spec_merged :: "pyval list \<Rightarrow> (string \<rightharpoonup> pyval)" where
  "spec_merged cs = foldl (++) Map.empty (map map_of (dict_clauses cs))"

text \<open>A Python dict has no repeated key.\<close>

definition wf_dict :: "pydict \<Rightarrow> bool" where
  "wf_dict d = distinct (map fst d)"

section \<open>The backend behind the router\<close>

text \<open>
  The router holds one \<^verbatim>\<open>QdrantVecDB\<close> per collection. That class (module
  \<^verbatim>\<open>memos.vec_dbs.qdrant\<close>) and the two configuration classes are not part of the
  sources at hand, so the backend is a parameter: a state type \<open>'b\<close> for one instance and
  one function per method the router calls, each taking the instance's state and giving
  the method's result and the state afterwards. These methods always return; the
  filter-taking router methods are given a second time below, over a backend whose methods
  may raise, since the router has no handler and lets a backend exception through.
\<close>

record qdrant_config =
  qc_collection_name :: string
  qc_vector_dimension :: int
  qc_distance_metric :: string
  qc_host :: "string option"
  qc_port :: "int option"
  qc_path :: "string option"
  qc_url :: "string option"
  qc_api_key :: "string option"

record multi_config =
  mc_collection_name :: "string list"
  mc_vector_dimension :: int
  mc_distance_metric :: string
  mc_host :: "string option"
  mc_port :: "int option"
  mc_path :: "string option"
  mc_url :: "string option"
  mc_api_key :: "string option"

text \<open>
  \<open>q_get_by_filter\<close> takes the scroll limit as an option: \<open>None\<close> is a call that leaves
  the argument out, so that the backend's own default applies.
\<close>

record 'b qdrant_vec_db =
  q_new :: "qdrant_config \<Rightarrow> 'b"
  q_create_collection :: "'b \<Rightarrow> 'b"
  q_delete_collection :: "'b \<Rightarrow> string \<Rightarrow> 'b"
  q_collection_exists :: "'b \<Rightarrow> string \<Rightarrow> bool \<times> 'b"
  q_search :: "'b \<Rightarrow> real list \<Rightarrow> int \<Rightarrow> pydict option \<Rightarrow> vec_item list \<times> 'b"
  q_get_by_id :: "'b \<Rightarrow> string \<Rightarrow> vec_item option \<times> 'b"
  q_get_by_ids :: "'b \<Rightarrow> string list \<Rightarrow> vec_item list \<times> 'b"
  q_get_by_filter :: "'b \<Rightarrow> pydict \<Rightarrow> int option \<Rightarrow> vec_item list \<times> 'b"
  q_get_all :: "'b \<Rightarrow> int \<Rightarrow> vec_item list \<times> 'b"
  q_count :: "'b \<Rightarrow> pydict option \<Rightarrow> int \<times> 'b"
  q_add :: "'b \<Rightarrow> prepared list \<Rightarrow> 'b"
  q_update :: "'b \<Rightarrow> string \<Rightarrow> prepared \<Rightarrow> 'b"
  q_upsert :: "'b \<Rightarrow> prepared list \<Rightarrow> 'b"
  q_delete :: "'b \<Rightarrow> string list \<Rightarrow> 'b"
  q_ensure_payload_indexes :: "'b \<Rightarrow> string list \<Rightarrow> 'b"

section \<open>The router\<close>

text \<open>
  The one exception the router raises, in \<^verbatim>\<open>_get\<close>:
  \<^verbatim>\<open>ValueError(f"Unknown collection '{collection_name}'. Available: {list(self._instances.keys())}")\<close>.
  The value carries the two things the message is formatted from.
\<close>

datatype error = ValueError string "string list"

text \<open>
  The two \<^verbatim>\<open>logger.info\<close> lines:
  \<^verbatim>\<open>[QdrantMulti] Initialized collection '{name}'\<close> and
  \<^verbatim>\<open>[QdrantMulti] Deleted {len(items)} items from '{collection_name}' by filter\<close>.
\<close>

datatype log_record = Initialized string | Deleted nat string

text \<open>
  The router object: its configuration and \<^verbatim>\<open>_instances\<close>, a dict from collection name
  to backend instance. The lines written to the module's logger are kept with it.
\<close>

record 'b router =
  config :: multi_config
  instances :: "(string \<times> 'b) list"
  logged :: "log_record list"

definition single_cfg :: "multi_config \<Rightarrow> string \<Rightarrow> qdrant_config" where
  "single_cfg c name =
     \<lparr> qc_collection_name = name,
       qc_vector_dimension = mc_vector_dimension c,
       qc_distance_metric = mc_distance_metric c,
       qc_host = mc_host c,
       qc_port = mc_port c,
       qc_path = mc_path c,
       qc_url = mc_url c,
       qc_api_key = mc_api_key c \<rparr>"

text \<open>The body of the loop of \<^verbatim>\<open>__init__\<close>, and \<^verbatim>\<open>__init__\<close>.\<close>

definition init_one :: "'b qdrant_vec_db \<Rightarrow> string \<Rightarrow> 'b router \<Rightarrow> 'b router" where
  "init_one ops name r =
     r\<lparr> instances := AList.update name (q_new ops (single_cfg (config r) name)) (instances r),
        logged := logged r @ [Initialized name] \<rparr>"

definition init :: "'b qdrant_vec_db \<Rightarrow> multi_config \<Rightarrow> 'b router" where
  "init ops c = fold (init_one ops) (mc_collection_name c)
                  \<lparr> config = c, instances = [], logged = [] \<rparr>"

definition get_inst :: "'b router \<Rightarrow> string \<Rightarrow> error + 'b" where
  "get_inst r collection_name =
     (case map_of (instances r) collection_name of
        None \<Rightarrow> Inl (ValueError collection_name (map fst (instances r)))
      | Some inst \<Rightarrow> Inr inst)"

text \<open>
  A backend method mutates the instance object that \<^verbatim>\<open>_instances\<close> holds; here the
  state after the call is stored back under the same name.
\<close>

definition put_inst :: "'b router \<Rightarrow> string \<Rightarrow> 'b \<Rightarrow> 'b router" where
  "put_inst r collection_name inst =
     r\<lparr> instances := AList.update collection_name inst (instances r) \<rparr>"

text \<open>
  What \<^verbatim>\<open>__init__\<close> establishes and every operation keeps: the keys of \<^verbatim>\<open>_instances\<close>
  are the configured collection names, each once.
\<close>

definition router_ok :: "'b router \<Rightarrow> bool" where
  "router_ok r =
     (fst ` set (instances r) = set (mc_collection_name (config r)) \<and>
      distinct (map fst (instances r)))"

subsection \<open>Collection management\<close>

definition create_collection :: "'b qdrant_vec_db \<Rightarrow> 'b router \<Rightarrow> 'b router" where
  "create_collection ops r =
     r\<lparr> instances := map (\<lambda>(n, inst). (n, q_create_collection ops inst)) (instances r) \<rparr>"

definition list_collections :: "'b router \<Rightarrow> string list" where
  "list_collections r = map fst (instances r)"

definition delete_collection ::
  "'b qdrant_vec_db \<Rightarrow> string \<Rightarrow> 'b router \<Rightarrow> (error + unit) \<times> 'b router" where
  "delete_collection ops name r =
     (case get_inst r name of
        Inl e \<Rightarrow> (Inl e, r)
      | Inr inst \<Rightarrow> (Inr (), put_inst r name (q_delete_collection ops inst name)))"

definition collection_exists ::
  "'b qdrant_vec_db \<Rightarrow> string \<Rightarrow> 'b router \<Rightarrow> bool \<times> 'b router" where
  "collection_exists ops name r =
     (case map_of (instances r) name of
        None \<Rightarrow> (False, r)
      | Some inst \<Rightarrow>
          (let (b, inst') = q_collection_exists ops inst name in (b, put_inst r name inst')))"

subsection \<open>Search\<close>

text \<open>The arguments \<open>query\<close> and \<open>search_type\<close> are accepted and not used.\<close>

definition search ::
  "'b qdrant_vec_db \<Rightarrow> real list \<Rightarrow> string \<Rightarrow> string \<Rightarrow> int \<Rightarrow> pydict option \<Rightarrow> string \<Rightarrow>
   'b router \<Rightarrow> (error + milvus_item list) \<times> 'b router" where
  "search ops query_vector query collection_name top_k flt search_type r =
     (let flat_filter = flatten_milvus_filter flt in
      case get_inst r collection_name of
        Inl e \<Rightarrow> (Inl e, r)
      | Inr inst \<Rightarrow>
          (let (results, inst') = q_search ops inst query_vector top_k flat_filter
           in (Inr (map to_milvus_item results), put_inst r collection_name inst')))"

subsection \<open>CRUD\<close>

definition get_by_id ::
  "'b qdrant_vec_db \<Rightarrow> string \<Rightarrow> string \<Rightarrow> 'b router \<Rightarrow>
   (error + milvus_item option) \<times> 'b router" where
  "get_by_id ops collection_name i r =
     (case get_inst r collection_name of
        Inl e \<Rightarrow> (Inl e, r)
      | Inr inst \<Rightarrow>
          (let (result, inst') = q_get_by_id ops inst i
           in (Inr (map_option to_milvus_item result), put_inst r collection_name inst')))"

definition get_by_ids ::
  "'b qdrant_vec_db \<Rightarrow> string \<Rightarrow> string list \<Rightarrow> 'b router \<Rightarrow>
   (error + milvus_item list) \<times> 'b router" where
  "get_by_ids ops collection_name ids r =
     (case get_inst r collection_name of
        Inl e \<Rightarrow> (Inl e, r)
      | Inr inst \<Rightarrow>
          (let (results, inst') = q_get_by_ids ops inst ids
           in (Inr (map to_milvus_item results), put_inst r collection_name inst')))"

definition get_by_filter ::
  "'b qdrant_vec_db \<Rightarrow> string \<Rightarrow> pydict option \<Rightarrow> int \<Rightarrow> 'b router \<Rightarrow>
   (error + milvus_item list) \<times> 'b router" where
  "get_by_filter ops collection_name flt scroll_limit r =
     (let flat_filter = or_empty (flatten_milvus_filter flt) in
      case get_inst r collection_name of
        Inl e \<Rightarrow> (Inl e, r)
      | Inr inst \<Rightarrow>
          (let (results, inst') = q_get_by_filter ops inst flat_filter (Some scroll_limit)
           in (Inr (map to_milvus_item results), put_inst r collection_name inst')))"

definition get_all ::
  "'b qdrant_vec_db \<Rightarrow> string \<Rightarrow> int \<Rightarrow> 'b router \<Rightarrow>
   (error + milvus_item list) \<times> 'b router" where
  "get_all ops collection_name scroll_limit r =
     (case get_inst r collection_name of
        Inl e \<Rightarrow> (Inl e, r)
      | Inr inst \<Rightarrow>
          (let (results, inst') = q_get_all ops inst scroll_limit
           in (Inr (map to_milvus_item results), put_inst r collection_name inst')))"

definition count ::
  "'b qdrant_vec_db \<Rightarrow> string \<Rightarrow> pydict option \<Rightarrow> 'b router \<Rightarrow> (error + int) \<times> 'b router" where
  "count ops collection_name flt r =
     (case get_inst r collection_name of
        Inl e \<Rightarrow> (Inl e, r)
      | Inr inst \<Rightarrow>
          (let (n, inst') = q_count ops inst flt
           in (Inr n, put_inst r collection_name inst')))"

definition add ::
  "'b qdrant_vec_db \<Rightarrow> string \<Rightarrow> any_item list \<Rightarrow> 'b router \<Rightarrow> (error + unit) \<times> 'b router" where
  "add ops collection_name data r =
     (let prepared = map prepare_for_qdrant data in
      case get_inst r collection_name of
        Inl e \<Rightarrow> (Inl e, r)
      | Inr inst \<Rightarrow> (Inr (), put_inst r collection_name (q_add ops inst prepared)))"

definition update ::
  "'b qdrant_vec_db \<Rightarrow> string \<Rightarrow> string \<Rightarrow> any_item \<Rightarrow> 'b router \<Rightarrow>
   (error + unit) \<times> 'b router" where
  "update ops collection_name i data r =
     (let prepared = prepare_for_qdrant data in
      case get_inst r collection_name of
        Inl e \<Rightarrow> (Inl e, r)
      | Inr inst \<Rightarrow> (Inr (), put_inst r collection_name (q_update ops inst i prepared)))"

definition upsert ::
  "'b qdrant_vec_db \<Rightarrow> string \<Rightarrow> any_item list \<Rightarrow> 'b router \<Rightarrow> (error + unit) \<times> 'b router" where
  "upsert ops collection_name data r =
     (let prepared = map prepare_for_qdrant data in
      case get_inst r collection_name of
        Inl e \<Rightarrow> (Inl e, r)
      | Inr inst \<Rightarrow> (Inr (), put_inst r collection_name (q_upsert ops inst prepared)))"

definition delete ::
  "'b qdrant_vec_db \<Rightarrow> string \<Rightarrow> string list \<Rightarrow> 'b router \<Rightarrow> (error + unit) \<times> 'b router" where
  "delete ops collection_name ids r =
     (case get_inst r collection_name of
        Inl e \<Rightarrow> (Inl e, r)
      | Inr inst \<Rightarrow> (Inr (), put_inst r collection_name (q_delete ops inst ids)))"

definition delete_by_filter ::
  "'b qdrant_vec_db \<Rightarrow> string \<Rightarrow> pydict option \<Rightarrow> 'b router \<Rightarrow> (error + unit) \<times> 'b router" where
  "delete_by_filter ops collection_name flt r =
     (case get_inst r collection_name of
        Inl e \<Rightarrow> (Inl e, r)
      | Inr inst \<Rightarrow>
          (let flat_filter = or_empty (flatten_milvus_filter flt);
               (items, inst') = q_get_by_filter ops inst flat_filter None
           in if items \<noteq> []
              then (Inr (),
                    (put_inst r collection_name (q_delete ops inst' (map item_id items)))
                      \<lparr> logged := logged r @ [Deleted (length items) collection_name] \<rparr>)
              else (Inr (), put_inst r collection_name inst')))"

definition ensure_payload_indexes ::
  "'b qdrant_vec_db \<Rightarrow> string list \<Rightarrow> 'b router \<Rightarrow> 'b router" where
  "ensure_payload_indexes ops flds r =
     r\<lparr> instances := map (\<lambda>(n, inst). (n, q_ensure_payload_indexes ops inst flds))
                        (instances r) \<rparr>"

section \<open>A single-collection store to run the router on\<close>

text \<open>
  Modelled from the spec: the class \<^verbatim>\<open>QdrantVecDB\<close> is missing from the sources. This is a
  single-collection store as the spec describes a backend instance: records held by id,
  a filtered scan over the flat equality-clause form of a filter (a record matches when
  its payload has every key of the filter with the filter's value, so the empty mapping
  matches every record), and deletion by id. A scan returns the matching records in
  storage order, at most as many as the scroll limit; \<open>dflt\<close> is the limit of a scan that
  is given none. Similarity ranking is not modelled: \<open>search\<close> returns the first
  \<open>top_k\<close> matching records. The store also keeps the calls it received, in order.
\<close>

datatype call =
    Create_collection
  | Delete_collection string
  | Collection_exists string
  | Search "real list" int "pydict option"
  | Get_by_id string
  | Get_by_ids "string list"
  | Get_by_filter pydict "int option"
  | Get_all int
  | Count "pydict option"
  | Add "prepared list"
  | Update string prepared
  | Upsert "prepared list"
  | Delete_ids "string list"
  | Ensure_payload_indexes "string list"

record mem_db =
  held :: "vec_item list"
  calls :: "call list"

definition matches :: "pydict \<Rightarrow> vec_item \<Rightarrow> bool" where
  "matches f item = list_all (\<lambda>(k, v). map_of (or_empty (payload item)) k = Some v) f"

definition scan :: "pydict \<Rightarrow> int \<Rightarrow> vec_item list \<Rightarrow> vec_item list" where
  "scan f lmt items = take (nat lmt) (filter (matches f) items)"

definition called :: "call \<Rightarrow> mem_db \<Rightarrow> mem_db" where
  "called c b = b\<lparr> calls := calls b @ [c] \<rparr>"

definition without :: "string list \<Rightarrow> vec_item list \<Rightarrow> vec_item list" where
  "without ids items = filter (\<lambda>x. item_id x \<notin> set ids) items"

fun stored :: "prepared list \<Rightarrow> vec_item list" where
  "stored [] = []"
| "stored (PItem v # ps) = v # stored ps"
| "stored (PRaw d # ps) = stored ps"

definition mem :: "int \<Rightarrow> mem_db qdrant_vec_db" where
  "mem dflt =
     \<lparr> q_new = (\<lambda>cfg. \<lparr> held = [], calls = [] \<rparr>),
       q_create_collection = (\<lambda>b. called Create_collection b),
       q_delete_collection = (\<lambda>b name. called (Delete_collection name) (b\<lparr> held := [] \<rparr>)),
       q_collection_exists = (\<lambda>b name. (True, called (Collection_exists name) b)),
       q_search = (\<lambda>b qv top_k f.
          (scan (or_empty f) top_k (held b), called (Search qv top_k f) b)),
       q_get_by_id = (\<lambda>b i. (find (\<lambda>x. item_id x = i) (held b), called (Get_by_id i) b)),
       q_get_by_ids = (\<lambda>b ids.
          (filter (\<lambda>x. item_id x \<in> set ids) (held b), called (Get_by_ids ids) b)),
       q_get_by_filter = (\<lambda>b f lmt.
          (scan f (case lmt of None \<Rightarrow> dflt | Some l \<Rightarrow> l) (held b),
           called (Get_by_filter f lmt) b)),
       q_get_all = (\<lambda>b lmt. (scan [] lmt (held b), called (Get_all lmt) b)),
       q_count = (\<lambda>b f.
          (int (length (filter (matches (or_empty f)) (held b))), called (Count f) b)),
       q_add = (\<lambda>b ps. called (Add ps) (b\<lparr> held := held b @ stored ps \<rparr>)),
       q_update = (\<lambda>b i p.
          called (Update i p) (b\<lparr> held := without [i] (held b) @ stored [p] \<rparr>)),
       q_upsert = (\<lambda>b ps.
          called (Upsert ps)
            (b\<lparr> held := without (map item_id (stored ps)) (held b) @ stored ps \<rparr>)),
       q_delete = (\<lambda>b ids. called (Delete_ids ids) (b\<lparr> held := without ids (held b) \<rparr>)),
       q_ensure_payload_indexes = (\<lambda>b flds. called (Ensure_payload_indexes flds) b) \<rparr>"

section \<open>The graph store's optional searches\<close>

text \<open>
  \<^verbatim>\<open>BaseGraphDB\<close> declares its required operations abstract and gives three searches a
  body of their own, which a backend that does not override them inherits. Keyword
  arguments are a dict.
\<close>

definition search_by_fulltext :: "string list \<Rightarrow> int \<Rightarrow> pydict \<Rightarrow> pydict list" where
  "search_by_fulltext query_words top_k kwargs = []"

definition search_by_keywords_like :: "string \<Rightarrow> pydict \<Rightarrow> pydict list" where
  "search_by_keywords_like query_word kwargs = []"

definition search_by_keywords_tfidf :: "string list \<Rightarrow> pydict \<Rightarrow> pydict list" where
  "search_by_keywords_tfidf query_words kwargs = []"

section \<open>The SearXNG retriever\<close>

text \<open>
  One search result is a dict with the keys \<^verbatim>\<open>title\<close>, \<^verbatim>\<open>url\<close> and \<^verbatim>\<open>content\<close>; SearXNG
  sends them as JSON strings, so a result is a string-valued dict. The HTTP request is a
  parameter: it either fails with a \<^verbatim>\<open>RequestException\<close> (which covers a bad status and an
  undecodable body) or gives the decoded body, of which only the list under \<^verbatim>\<open>"results"\<close>
  is read (\<open>None\<close> when the key is absent).
\<close>

type_synonym result = "(string \<times> string) list"

datatype http_reply = Request_exception | Json "result list option"

record searxng_api =
  base_url :: string
  max_results :: int

text \<open>\<^verbatim>\<open>s.rstrip("/")\<close> and the slice \<^verbatim>\<open>xs[:n]\<close>, where a negative \<open>n\<close> counts from the end.\<close>

definition rstrip_slash :: "string \<Rightarrow> string" where
  "rstrip_slash s = rev (dropWhile (\<lambda>c. c = CHR ''/'') (rev s))"

definition py_prefix :: "int \<Rightarrow> 'a list \<Rightarrow> 'a list" where
  "py_prefix n xs = (if 0 \<le> n then take (nat n) xs else take (length xs - nat (- n)) xs)"

definition searxng_api_init :: "string \<Rightarrow> int \<Rightarrow> searxng_api" where
  "searxng_api_init url m = \<lparr> base_url = rstrip_slash url, max_results = m \<rparr>"

definition api_search ::
  "(string \<Rightarrow> (string \<times> string) list \<Rightarrow> http_reply) \<Rightarrow> searxng_api \<Rightarrow> string \<Rightarrow> int option \<Rightarrow>
   result list" where
  "api_search http api query m =
     (let m' = (case m of None \<Rightarrow> max_results api | Some k \<Rightarrow> k);
          params = [(''q'', query), (''format'', ''json''), (''categories'', ''general'')]
      in case http (base_url api @ ''/search'') params of
           Request_exception \<Rightarrow> []
         | Json data \<Rightarrow> py_prefix m' (case data of None \<Rightarrow> [] | Some rs \<Rightarrow> rs))"

definition str_get :: "(string \<times> string) list \<Rightarrow> string \<Rightarrow> string \<Rightarrow> string" where
  "str_get d k dflt = (case map_of d k of Some v \<Rightarrow> v | None \<Rightarrow> dflt)"

text \<open>
  \<^verbatim>\<open>parsed_goal\<close>: an attribute that is missing or \<^verbatim>\<open>None\<close> is \<open>None\<close> here; an empty
  string is falsy as well.
\<close>

record parsed_goal =
  topic :: "string option"
  concept :: "string option"

definition attr_tag :: "string option \<Rightarrow> string list" where
  "attr_tag a = (case a of None \<Rightarrow> [] | Some t \<Rightarrow> if t \<noteq> [] then [t] else [])"

definition goal_tags :: "parsed_goal option \<Rightarrow> string list" where
  "goal_tags g =
     [''web_search''] @
     (case g of None \<Rightarrow> [] | Some pg \<Rightarrow> attr_tag (topic pg) @ attr_tag (concept pg))"

record entry =
  content :: string
  title :: string
  link :: string
  tags :: "string list"

definition make_entry :: "parsed_goal option \<Rightarrow> result \<Rightarrow> entry" where
  "make_entry g res =
     (let t = str_get res ''title'' [];
          snippet = str_get res ''content'' [];
          l = str_get res ''url'' [];
          memory_content =
            ''Title: '' @ t @ [CHR 0x0A] @ ''Summary: '' @ snippet @ [CHR 0x0A] @
            ''Source: '' @ l
      in \<lparr> content = memory_content, title = t, link = l, tags = goal_tags g \<rparr>)"

record source_message =
  sm_type :: string
  sm_url :: string

record tree_node_metadata =
  md_user_id :: string
  md_session_id :: string
  md_status :: string
  md_type :: string
  md_memory_time :: string
  md_source :: string
  md_confidence :: real
  md_tags :: "string list"
  md_visibility :: string
  md_memory_type :: string
  md_key :: string
  md_sources :: "source_message list"
  md_embedding :: "real list"
  md_created_at :: string
  md_usage :: "string list"
  md_background :: string

record textual_memory_item =
  tm_id :: string
  tm_memory :: string
  tm_metadata :: tree_node_metadata

text \<open>
  The body of the second loop. The clock gives \<open>now_str\<close> and \<open>now_iso\<close>; \<open>uid\<close> is
  the string of the fresh \<^verbatim>\<open>uuid.uuid4()\<close>.
\<close>

definition make_item ::
  "string \<Rightarrow> string \<Rightarrow> string \<Rightarrow> string \<Rightarrow> string \<Rightarrow> entry \<Rightarrow> real list \<Rightarrow> textual_memory_item" where
  "make_item user_id session_id now_str now_iso uid e embedding =
     \<lparr> tm_id = uid,
       tm_memory = content e,
       tm_metadata =
         \<lparr> md_user_id = user_id,
           md_session_id = session_id,
           md_status = ''activated'',
           md_type = ''fact'',
           md_memory_time = now_str,
           md_source = ''web'',
           md_confidence = 85,
           md_tags = tags e,
           md_visibility = ''public'',
           md_memory_type = ''LongTermMemory'',
           md_key = title e,
           md_sources = (if link e \<noteq> [] then [\<lparr> sm_type = ''web'', sm_url = link e \<rparr>] else []),
           md_embedding = embedding,
           md_created_at = now_iso,
           md_usage = [],
           md_background = ''SearXNG search result'' \<rparr> \<rparr>"

text \<open>
  \<^verbatim>\<open>retrieve_from_internet\<close>. The embedder (class \<^verbatim>\<open>BaseEmbedder\<close>, not in the sources) is
  a parameter: \<open>embedder\<close> takes the embedder's state and a list of texts and gives the
  vectors and the state afterwards. \<open>uuids i\<close> is the \<open>i\<close>-th identifier that
  \<^verbatim>\<open>uuid.uuid4()\<close> hands out during the call.
\<close>

definition no_info :: "(string \<times> string) list" where
  "no_info = [(''user_id'', []), (''session_id'', [])]"

definition retrieve_from_internet ::
  "(string \<Rightarrow> (string \<times> string) list \<Rightarrow> http_reply) \<Rightarrow>
   ('e \<Rightarrow> string list \<Rightarrow> real list list \<times> 'e) \<Rightarrow>
   (nat \<Rightarrow> string) \<Rightarrow> string \<Rightarrow> string \<Rightarrow>
   searxng_api \<Rightarrow> string \<Rightarrow> int \<Rightarrow> parsed_goal option \<Rightarrow> (string \<times> string) list option \<Rightarrow>
   string \<Rightarrow> 'e \<Rightarrow> textual_memory_item list \<times> 'e" where
  "retrieve_from_internet http embedder uuids now_str now_iso api query top_k goal info mode e =
     (let info' = (case info of
                     None \<Rightarrow> no_info
                   | Some d \<Rightarrow> if d = [] then no_info else d);
          search_results = api_search http api query (Some top_k)
      in if search_results = [] then ([], e)
         else
           (let entries = map (make_entry goal) search_results;
                all_texts = map content entries;
                (all_embeddings, e') = embedder e all_texts;
                user_id = str_get info' ''user_id'' [];
                session_id = str_get info' ''session_id'' [];
                memory_items =
                  map (\<lambda>(i, en, embedding).
                         make_item user_id session_id now_str now_iso (uuids i) en embedding)
                      (enumerate 0 (zip entries all_embeddings))
            in (memory_items, e')))"

text \<open>
  An embedder that, besides embedding, writes down every batch it is called with: its
  second component is the list of the calls made so far.
\<close>

definition recording ::
  "('e \<Rightarrow> string list \<Rightarrow> real list list \<times> 'e) \<Rightarrow>
   'e \<times> string list list \<Rightarrow> string list \<Rightarrow> real list list \<times> ('e \<times> string list list)" where
  "recording embedder st texts =
     (let (vs, e') = embedder (fst st) texts in (vs, (e', snd st @ [texts])))"

section \<open>The filter-taking methods over a backend that may raise\<close>

text \<open>
  The router has no \<^verbatim>\<open>try\<close>: an exception raised inside a backend method leaves the router
  method at that call, with whatever the backend did before raising done. For the four
  methods that take a filter, \<^verbatim>\<open>search\<close>, \<^verbatim>\<open>get_by_filter\<close>, \<^verbatim>\<open>count\<close> and
  \<^verbatim>\<open>delete_by_filter\<close>, here is the same code over a backend whose methods either return
  or raise an exception of some type \<open>'x\<close>; in both cases they give the instance's state
  afterwards. A router method then raises either the \<^verbatim>\<open>ValueError\<close> of \<^verbatim>\<open>_get\<close> or what
  the backend raised.
\<close>

datatype 'x raised = Router_raised error | Backend_raised 'x

record ('b, 'x) raising_db =
  x_search :: "'b \<Rightarrow> real list \<Rightarrow> int \<Rightarrow> pydict option \<Rightarrow> ('x + vec_item list) \<times> 'b"
  x_get_by_filter :: "'b \<Rightarrow> pydict \<Rightarrow> int option \<Rightarrow> ('x + vec_item list) \<times> 'b"
  x_count :: "'b \<Rightarrow> pydict option \<Rightarrow> ('x + int) \<times> 'b"
  x_delete :: "'b \<Rightarrow> string list \<Rightarrow> ('x + unit) \<times> 'b"

definition search_exc ::
  "('b, 'x) raising_db \<Rightarrow> real list \<Rightarrow> string \<Rightarrow> string \<Rightarrow> int \<Rightarrow> pydict option \<Rightarrow> string \<Rightarrow>
   'b router \<Rightarrow> ('x raised + milvus_item list) \<times> 'b router" where
  "search_exc ops query_vector query collection_name top_k flt search_type r =
     (let flat_filter = flatten_milvus_filter flt in
      case get_inst r collection_name of
        Inl e \<Rightarrow> (Inl (Router_raised e), r)
      | Inr inst \<Rightarrow>
          (case x_search ops inst query_vector top_k flat_filter of
             (Inl x, inst') \<Rightarrow> (Inl (Backend_raised x), put_inst r collection_name inst')
           | (Inr results, inst') \<Rightarrow>
               (Inr (map to_milvus_item results), put_inst r collection_name inst')))"

definition get_by_filter_exc ::
  "('b, 'x) raising_db \<Rightarrow> string \<Rightarrow> pydict option \<Rightarrow> int \<Rightarrow> 'b router \<Rightarrow>
   ('x raised + milvus_item list) \<times> 'b router" where
  "get_by_filter_exc ops collection_name flt scroll_limit r =
     (let flat_filter = or_empty (flatten_milvus_filter flt) in
      case get_inst r collection_name of
        Inl e \<Rightarrow> (Inl (Router_raised e), r)
      | Inr inst \<Rightarrow>
          (case x_get_by_filter ops inst flat_filter (Some scroll_limit) of
             (Inl x, inst') \<Rightarrow> (Inl (Backend_raised x), put_inst r collection_name inst')
           | (Inr results, inst') \<Rightarrow>
               (Inr (map to_milvus_item results), put_inst r collection_name inst')))"

definition count_exc ::
  "('b, 'x) raising_db \<Rightarrow> string \<Rightarrow> pydict option \<Rightarrow> 'b router \<Rightarrow>
   ('x raised + int) \<times> 'b router" where
  "count_exc ops collection_name flt r =
     (case get_inst r collection_name of
        Inl e \<Rightarrow> (Inl (Router_raised e), r)
      | Inr inst \<Rightarrow>
          (case x_count ops inst flt of
             (Inl x, inst') \<Rightarrow> (Inl (Backend_raised x), put_inst r collection_name inst')
           | (Inr c, inst') \<Rightarrow> (Inr c, put_inst r collection_name inst')))"

definition delete_by_filter_exc ::
  "('b, 'x) raising_db \<Rightarrow> string \<Rightarrow> pydict option \<Rightarrow> 'b router \<Rightarrow>
   ('x raised + unit) \<times> 'b router" where
  "delete_by_filter_exc ops collection_name flt r =
     (case get_inst r collection_name of
        Inl e \<Rightarrow> (Inl (Router_raised e), r)
      | Inr inst \<Rightarrow>
          (let flat_filter = or_empty (flatten_milvus_filter flt) in
           case x_get_by_filter ops inst flat_filter None of
             (Inl x, inst') \<Rightarrow> (Inl (Backend_raised x), put_inst r collection_name inst')
           | (Inr items, inst') \<Rightarrow>
               if items \<noteq> []
               then (case x_delete ops inst' (map item_id items) of
                       (Inl x, inst'') \<Rightarrow>
                         (Inl (Backend_raised x), put_inst r collection_name inst'')
                     | (Inr u, inst'') \<Rightarrow>
                         (Inr (),
                          (put_inst r collection_name inst'')
                            \<lparr> logged := logged r @ [Deleted (length items) collection_name] \<rparr>))
               else (Inr (), put_inst r collection_name inst')))"

text \<open>A backend whose methods always return, as one that may raise and never does.\<close>

definition returning :: "'b qdrant_vec_db \<Rightarrow> ('b, 'x) raising_db" where
  "returning ops =
     \<lparr> x_search = (\<lambda>b qv top_k f.
          (Inr (fst (q_search ops b qv top_k f)), snd (q_search ops b qv top_k f))),
       x_get_by_filter = (\<lambda>b f lmt.
          (Inr (fst (q_get_by_filter ops b f lmt)), snd (q_get_by_filter ops b f lmt))),
       x_count = (\<lambda>b f. (Inr (fst (q_count ops b f)), snd (q_count ops b f))),
       x_delete = (\<lambda>b ids. (Inr (), q_delete ops b ids)) \<rparr>"





section \<open>Sample data\<close>

definition demo_config :: multi_config where
  "demo_config =
     \<lparr> mc_collection_name = [''explicit'', ''implicit''],
       mc_vector_dimension = 4,
       mc_distance_metric = ''cosine'',
       mc_host = Some ''localhost'',
       mc_port = Some 6333,
       mc_path = None,
       mc_url = None,
       mc_api_key = None \<rparr>"

definition demo_a :: vec_item where
  "demo_a = \<lparr> item_id = ''a'', vector = Some [1, 0],
              payload = Some [(''user_id'', PStr ''u1''), (''preference'', PStr ''tea'')],
              score = Some 1 \<rparr>"

definition demo_b :: vec_item where
  "demo_b = \<lparr> item_id = ''b'', vector = None, payload = None, score = None \<rparr>"

definition demo_m :: milvus_item where
  "demo_m = \<lparr> item_id = ''m'', vector = Some [0, 1],
              payload = Some [(''user_id'', PStr ''u1'')], score = None,
              memory = PStr ''likes tea'', original_text = PStr ''I like tea'' \<rparr>"

definition demo_router :: "mem_db router" where
  "demo_router = init (mem 100) demo_config"

definition demo_store :: mem_db where
  "demo_store = \<lparr> held = [demo_a, demo_b], calls = [] \<rparr>"

definition demo_loaded :: "mem_db router" where
  "demo_loaded =
     \<lparr> config = demo_config,
       instances = [(''explicit'', demo_store), (''implicit'', \<lparr> held = [], calls = [] \<rparr>)],
       logged = [] \<rparr>"



definition and_clauses :: "pyval list" where
  "and_clauses =
     [PDict [(''user_id'', PStr ''u1'')], PNone,
      PDict [(''user_id'', PStr ''u2''), (''status'', PStr ''activated'')]]"

definition demo_http :: "string \<Rightarrow> (string \<times> string) list \<Rightarrow> http_reply" where
  "demo_http url params =
     Json (Some [[(''title'', ''T1''), (''url'', ''http://x''), (''content'', ''C1'')],
                 [(''title'', ''T2'')]])"

definition demo_embed :: "unit \<Rightarrow> string list \<Rightarrow> real list list \<times> unit" where
  "demo_embed u texts = (map (\<lambda>t. [real (length t)]) texts, ())"

definition demo_api :: searxng_api where
  "demo_api = searxng_api_init ''http://searxng:8080/'' 20"

definition demo_uuids :: "nat \<Rightarrow> string" where
  "demo_uuids i = replicate (Suc i) CHR ''u''"

section \<open>Properties of flattening\<close>

lemma dict_update_Cons: "dict_update flat ((k, v) # ps) = dict_update (AList.update k v flat) ps"
  by (simp add: dict_update_def)

lemma dict_update_Nil: "dict_update flat [] = flat"
  by (simp add: dict_update_def)

lemma map_of_dict_update:
  "distinct (map fst part) \<Longrightarrow> map_of (dict_update flat part) = map_of flat ++ map_of part"
proof (induction part arbitrary: flat)
  case Nil
  show ?case by (simp add: dict_update_Nil)
next
  case (Cons kv ps)
  obtain k v where kv: "kv = (k, v)" by (cases kv)
  from Cons.prems kv have fresh: "k \<notin> dom (map_of ps)" and d: "distinct (map fst ps)"
    by (auto simp: dom_map_of_conv_image_fst)
  have "map_of (dict_update flat (kv # ps)) = map_of (AList.update k v flat) ++ map_of ps"
    using Cons.IH [OF d] by (simp only: kv dict_update_Cons)
  also have "\<dots> = (map_of flat)(k \<mapsto> v) ++ map_of ps"
    by (simp only: update_conv')
  also have "\<dots> = map_of flat ++ (map_of ps)(k \<mapsto> v)"
  proof (rule ext)
    fix x
    show "((map_of flat)(k \<mapsto> v) ++ map_of ps) x = (map_of flat ++ (map_of ps)(k \<mapsto> v)) x"
      using fresh by (cases "map_of ps x") (auto simp: map_add_def)
  qed
  finally have e: "map_of (dict_update flat (kv # ps)) = map_of flat ++ (map_of ps)(k \<mapsto> v)" .
  show ?case using e by (simp only: kv map_of.simps fst_conv snd_conv)
qed

lemma distinct_dict_update:
  "distinct (map fst flat) \<Longrightarrow> distinct (map fst (dict_update flat part))"
proof (induction part arbitrary: flat)
  case Nil
  then show ?case by (simp add: dict_update_Nil)
next
  case (Cons kv ps)
  obtain k v where kv: "kv = (k, v)" by (cases kv)
  show ?case
    unfolding kv dict_update_Cons
    by (rule Cons.IH) (simp add: distinct_update Cons.prems)
qed

lemma merge_parts_map_of:
  "\<forall>d \<in> set (dict_clauses cs). wf_dict d \<Longrightarrow>
   map_of (merge_parts cs flat) = foldl (++) (map_of flat) (map map_of (dict_clauses cs))"
  by (induction cs flat rule: merge_parts.induct) (simp_all add: map_of_dict_update wf_dict_def)

lemma merge_parts_distinct:
  "distinct (map fst flat) \<Longrightarrow> distinct (map fst (merge_parts cs flat))"
  by (induction cs flat rule: merge_parts.induct) (simp_all add: distinct_dict_update)

lemma flatten_and:
  "map_of f ''and'' = Some (PList cs) \<Longrightarrow>
   flatten_milvus_filter (Some f) =
     (if merge_parts cs [] = [] then None else Some (merge_parts cs []))"
  by (simp add: flatten_milvus_filter_def Let_def)

lemma flatten_not_and:
  "\<forall>cs. map_of f ''and'' \<noteq> Some (PList cs) \<Longrightarrow> flatten_milvus_filter (Some f) = Some f"
  by (auto simp: flatten_milvus_filter_def split: option.splits pyval.splits)

text \<open>
  Claim C3. \<^verbatim>\<open>_flatten_milvus_filter\<close> maps \<^verbatim>\<open>None\<close> to \<^verbatim>\<open>None\<close>; it returns a filter with
  no list under the key \<^verbatim>\<open>"and"\<close> unchanged; and for a filter \<^verbatim>\<open>{"and": [c1, ..., cn]}\<close>
  of well-formed dicts it returns the single flat dict that, as a mapping, is the merge
  of the dict-valued sub-clauses in order (later clauses overriding earlier keys, every
  other sub-clause dropped), and \<^verbatim>\<open>None\<close> exactly when that merge is empty.
\<close>

theorem flatten_milvus_filter_merges:
  "flatten_milvus_filter None = None \<and>
   ((\<forall>ps. map_of f ''and'' \<noteq> Some (PList ps)) \<longrightarrow> flatten_milvus_filter (Some f) = Some f) \<and>
   (list_all wf_dict (dict_clauses cs) \<longrightarrow>
      (flatten_milvus_filter (Some [(''and'', PList cs)]) = None) = (spec_merged cs = Map.empty) \<and>
      (case flatten_milvus_filter (Some [(''and'', PList cs)]) of
         None \<Rightarrow> spec_merged cs = Map.empty
       | Some flat \<Rightarrow> flat \<noteq> [] \<and> wf_dict flat \<and> map_of flat = spec_merged cs))"
proof (intro conjI impI)
  show "flatten_milvus_filter None = None"
    by (simp add: flatten_milvus_filter_def)
next
  assume "\<forall>ps. map_of f ''and'' \<noteq> Some (PList ps)"
  then show "flatten_milvus_filter (Some f) = Some f"
    by (rule flatten_not_and)
next
  assume "list_all wf_dict (dict_clauses cs)"
  then have wf: "\<forall>d \<in> set (dict_clauses cs). wf_dict d"
    by (simp add: list_all_iff)
  have m: "map_of (merge_parts cs []) = spec_merged cs"
    using merge_parts_map_of [OF wf, of "[]"] by (simp add: spec_merged_def)
  have d: "wf_dict (merge_parts cs [])"
    unfolding wf_dict_def by (rule merge_parts_distinct) simp
  have fl: "flatten_milvus_filter (Some [(''and'', PList cs)]) =
      (if merge_parts cs [] = [] then None else Some (merge_parts cs []))"
    by (rule flatten_and) simp
  show "(flatten_milvus_filter (Some [(''and'', PList cs)]) = None) = (spec_merged cs = Map.empty)"
    unfolding fl m [symmetric] by (simp add: map_of_eq_empty_iff)
  show "case flatten_milvus_filter (Some [(''and'', PList cs)]) of
         None \<Rightarrow> spec_merged cs = Map.empty
       | Some flat \<Rightarrow> flat \<noteq> [] \<and> wf_dict flat \<and> map_of flat = spec_merged cs"
  proof (cases "merge_parts cs [] = []")
    case True
    with m fl show ?thesis by simp
  next
    case False
    with m d fl show ?thesis by simp
  qed
qed

theorem flatten_milvus_filter_merges_witness:
  "(\<forall>ps. map_of [(''user_id'', PStr ''u1'')] ''and'' \<noteq> Some (PList ps)) \<and>
   flatten_milvus_filter (Some [(''user_id'', PStr ''u1'')]) = Some [(''user_id'', PStr ''u1'')] \<and>
   list_all wf_dict (dict_clauses and_clauses) \<and>
   flatten_milvus_filter (Some [(''and'', PList and_clauses)]) =
     Some [(''user_id'', PStr ''u2''), (''status'', PStr ''activated'')] \<and>
   map_of [(''user_id'', PStr ''u2''), (''status'', PStr ''activated'')] = spec_merged and_clauses"
proof -
  have wf: "list_all wf_dict (dict_clauses and_clauses)"
    by (simp add: and_clauses_def wf_dict_def)
  have na: "\<forall>ps. map_of [(''user_id'', PStr ''u1'')] ''and'' \<noteq> Some (PList ps)"
    by simp
  have fl: "flatten_milvus_filter (Some [(''and'', PList and_clauses)]) =
      Some [(''user_id'', PStr ''u2''), (''status'', PStr ''activated'')]"
    by (simp add: flatten_milvus_filter_def and_clauses_def dict_update_def)
  from flatten_milvus_filter_merges [of "[(''user_id'', PStr ''u1'')]" and_clauses] wf na fl
  show ?thesis by simp
qed

section \<open>Item conversion\<close>

lemma or_empty_payload: "or_empty (payload v) = payload_of v"
  by (simp add: or_empty_def payload_of_def split: option.splits)

lemma outgoing_to_milvus_item: "outgoing v (to_milvus_item v)"
  by (simp add: outgoing_def to_milvus_item_def Let_def or_empty_payload dict_get_def
      canonical_memory_def canonical_original_text_def split: option.splits)

lemma outgoing_map: "list_all2 outgoing rs (map to_milvus_item rs)"
  by (simp add: list_all2_map2 list_all2_same outgoing_to_milvus_item)

lemma outgoing_option: "rel_option outgoing x (map_option to_milvus_item x)"
  by (cases x) (simp_all add: outgoing_to_milvus_item)

section \<open>Routing\<close>

lemma get_inst_known: "map_of (instances r) n = Some inst \<Longrightarrow> get_inst r n = Inr inst"
  by (simp add: get_inst_def)

lemma get_inst_unknown:
  "map_of (instances r) n = None \<Longrightarrow> get_inst r n = Inl (ValueError n (list_collections r))"
  by (simp add: get_inst_def list_collections_def)

lemma search_known:
  "map_of (instances r) n = Some inst \<Longrightarrow>
   search ops qv q n k flt st r =
     (Inr (map to_milvus_item (fst (q_search ops inst qv k (flatten_milvus_filter flt)))),
      put_inst r n (snd (q_search ops inst qv k (flatten_milvus_filter flt))))"
  by (simp add: search_def get_inst_known split: prod.splits)

lemma get_by_id_known:
  "map_of (instances r) n = Some inst \<Longrightarrow>
   get_by_id ops n i r =
     (Inr (map_option to_milvus_item (fst (q_get_by_id ops inst i))),
      put_inst r n (snd (q_get_by_id ops inst i)))"
  by (simp add: get_by_id_def get_inst_known split: prod.splits)

lemma get_by_ids_known:
  "map_of (instances r) n = Some inst \<Longrightarrow>
   get_by_ids ops n ids r =
     (Inr (map to_milvus_item (fst (q_get_by_ids ops inst ids))),
      put_inst r n (snd (q_get_by_ids ops inst ids)))"
  by (simp add: get_by_ids_def get_inst_known split: prod.splits)

lemma get_by_filter_known:
  "map_of (instances r) n = Some inst \<Longrightarrow>
   get_by_filter ops n flt lmt r =
     (Inr (map to_milvus_item
             (fst (q_get_by_filter ops inst (or_empty (flatten_milvus_filter flt)) (Some lmt)))),
      put_inst r n
        (snd (q_get_by_filter ops inst (or_empty (flatten_milvus_filter flt)) (Some lmt))))"
  by (simp add: get_by_filter_def get_inst_known split: prod.splits)

lemma get_all_known:
  "map_of (instances r) n = Some inst \<Longrightarrow>
   get_all ops n lmt r =
     (Inr (map to_milvus_item (fst (q_get_all ops inst lmt))),
      put_inst r n (snd (q_get_all ops inst lmt)))"
  by (simp add: get_all_def get_inst_known split: prod.splits)

lemma count_known:
  "map_of (instances r) n = Some inst \<Longrightarrow>
   count ops n flt r = (Inr (fst (q_count ops inst flt)), put_inst r n (snd (q_count ops inst flt)))"
  by (simp add: count_def get_inst_known split: prod.splits)

lemma delete_by_filter_known:
  "map_of (instances r) n = Some inst \<Longrightarrow>
   delete_by_filter ops n flt r =
     (let scanned = q_get_by_filter ops inst (or_empty (flatten_milvus_filter flt)) None
      in if fst scanned = [] then (Inr (), put_inst r n (snd scanned))
         else (Inr (),
               (put_inst r n (q_delete ops (snd scanned) (map item_id (fst scanned))))
                 \<lparr> logged := logged r @ [Deleted (length (fst scanned)) n] \<rparr>))"
  by (simp add: delete_by_filter_def get_inst_known Let_def split: prod.splits)

text \<open>
  Claim C4, as amended. On a known collection, every item that \<^verbatim>\<open>search\<close>, \<^verbatim>\<open>get_by_id\<close>,
  \<^verbatim>\<open>get_by_ids\<close>, \<^verbatim>\<open>get_by_filter\<close> and \<^verbatim>\<open>get_all\<close> return is the outgoing form of the item
  the backend returned in its place: \<open>memory\<close> is the payload's \<^verbatim>\<open>"memory"\<close> value if the
  key is present, otherwise the \<^verbatim>\<open>"preference"\<close> value if present, otherwise the empty
  string; \<open>original_text\<close> is the \<^verbatim>\<open>"original_text"\<close> value if present, otherwise the
  empty string; id, vector and score are carried over unchanged; the payload is carried
  over unchanged when the item has one, and is the empty dict when it has none.
\<close>

theorem read_items_outgoing:
  "map_of (instances r) n = Some inst \<Longrightarrow>
   (case fst (search ops qv q n k flt st r) of
      Inl e \<Rightarrow> False
    | Inr ms \<Rightarrow> list_all2 outgoing (fst (q_search ops inst qv k (flatten_milvus_filter flt))) ms) \<and>
   (case fst (get_by_id ops n i r) of
      Inl e \<Rightarrow> False
    | Inr m \<Rightarrow> rel_option outgoing (fst (q_get_by_id ops inst i)) m) \<and>
   (case fst (get_by_ids ops n ids r) of
      Inl e \<Rightarrow> False
    | Inr ms \<Rightarrow> list_all2 outgoing (fst (q_get_by_ids ops inst ids)) ms) \<and>
   (case fst (get_by_filter ops n flt lmt r) of
      Inl e \<Rightarrow> False
    | Inr ms \<Rightarrow>
        list_all2 outgoing
          (fst (q_get_by_filter ops inst (or_empty (flatten_milvus_filter flt)) (Some lmt))) ms) \<and>
   (case fst (get_all ops n lmt r) of
      Inl e \<Rightarrow> False
    | Inr ms \<Rightarrow> list_all2 outgoing (fst (q_get_all ops inst lmt)) ms)"
  by (simp add: search_known get_by_id_known get_by_ids_known get_by_filter_known get_all_known
      outgoing_map outgoing_option)

theorem read_items_outgoing_witness:
  "map_of (instances demo_loaded) ''explicit'' = Some demo_store \<and>
   fst (get_by_ids (mem 100) ''explicit'' [''a'', ''b''] demo_loaded) =
     Inr [\<lparr> item_id = ''a'', vector = Some [1, 0],
             payload = Some [(''user_id'', PStr ''u1''), (''preference'', PStr ''tea'')],
             score = Some 1, memory = PStr ''tea'', original_text = PStr [] \<rparr>,
          \<lparr> item_id = ''b'', vector = None, payload = Some [], score = None,
             memory = PStr [], original_text = PStr [] \<rparr>] \<and>
   list_all2 outgoing [demo_a, demo_b]
     [\<lparr> item_id = ''a'', vector = Some [1, 0],
        payload = Some [(''user_id'', PStr ''u1''), (''preference'', PStr ''tea'')],
        score = Some 1, memory = PStr ''tea'', original_text = PStr [] \<rparr>,
      \<lparr> item_id = ''b'', vector = None, payload = Some [], score = None,
        memory = PStr [], original_text = PStr [] \<rparr>]"
proof -
  have k: "map_of (instances demo_loaded) ''explicit'' = Some demo_store"
    by (simp add: demo_loaded_def)
  have b: "fst (q_get_by_ids (mem 100) demo_store [''a'', ''b'']) = [demo_a, demo_b]"
    by (simp add: mem_def demo_store_def demo_a_def demo_b_def)
  have g: "fst (get_by_ids (mem 100) ''explicit'' [''a'', ''b''] demo_loaded) =
     Inr [\<lparr> item_id = ''a'', vector = Some [1, 0],
             payload = Some [(''user_id'', PStr ''u1''), (''preference'', PStr ''tea'')],
             score = Some 1, memory = PStr ''tea'', original_text = PStr [] \<rparr>,
          \<lparr> item_id = ''b'', vector = None, payload = Some [], score = None,
             memory = PStr [], original_text = PStr [] \<rparr>]"
    by (simp add: get_by_ids_known [OF k] b to_milvus_item_def demo_a_def demo_b_def
        or_empty_def dict_get_def)
  from read_items_outgoing [OF k, where ops = "mem 100" and ids = "[''a'', ''b'']"]
  have "list_all2 outgoing (fst (q_get_by_ids (mem 100) demo_store [''a'', ''b'']))
     [\<lparr> item_id = ''a'', vector = Some [1, 0],
        payload = Some [(''user_id'', PStr ''u1''), (''preference'', PStr ''tea'')],
        score = Some 1, memory = PStr ''tea'', original_text = PStr [] \<rparr>,
      \<lparr> item_id = ''b'', vector = None, payload = Some [], score = None,
        memory = PStr [], original_text = PStr [] \<rparr>]"
    by (simp only: g sum.case)
  with k g b show ?thesis by simp
qed

text \<open>
  The claim as first stated has the payload carried over unchanged. An item without a
  payload comes out with the empty dict as its payload.
\<close>

theorem payload_unchanged_counterexample:
  "payload (to_milvus_item demo_b) \<noteq> payload demo_b"
  by (simp add: to_milvus_item_def demo_b_def or_empty_def)

text \<open>
  Claim C8. For a Milvus-shaped item whose \<open>memory\<close> and \<open>original_text\<close> are non-empty
  strings, \<^verbatim>\<open>_prepare_for_qdrant\<close> gives a plain item, and \<^verbatim>\<open>_to_milvus_item\<close> of that item
  has the same id, vector, score, memory and original_text.
\<close>

theorem prepare_then_to_milvus:
  "memory m = PStr s \<Longrightarrow> s \<noteq> [] \<Longrightarrow> original_text m = PStr t \<Longrightarrow> t \<noteq> [] \<Longrightarrow>
   (case prepare_for_qdrant (Milvus m) of
      PRaw d \<Rightarrow> False
    | PItem v \<Rightarrow>
        item_id (to_milvus_item v) = item_id m \<and>
        vector (to_milvus_item v) = vector m \<and>
        score (to_milvus_item v) = score m \<and>
        memory (to_milvus_item v) = memory m \<and>
        original_text (to_milvus_item v) = original_text m)"
  by (simp add: prepare_for_qdrant_def to_milvus_item_def Let_def or_empty_def dict_get_def
      update_conv')

theorem prepare_then_to_milvus_witness:
  "memory demo_m = PStr ''likes tea'' \<and> ''likes tea'' \<noteq> [] \<and>
   original_text demo_m = PStr ''I like tea'' \<and> ''I like tea'' \<noteq> [] \<and>
   (case prepare_for_qdrant (Milvus demo_m) of
      PRaw d \<Rightarrow> False
    | PItem v \<Rightarrow>
        v = \<lparr> item_id = ''m'', vector = Some [0, 1],
              payload = Some [(''user_id'', PStr ''u1''), (''memory'', PStr ''likes tea''),
                              (''original_text'', PStr ''I like tea'')],
              score = None \<rparr> \<and>
        memory (to_milvus_item v) = PStr ''likes tea'' \<and>
        original_text (to_milvus_item v) = PStr ''I like tea'')"
proof -
  have m: "memory demo_m = PStr ''likes tea''" and o: "original_text demo_m = PStr ''I like tea''"
    by (simp_all add: demo_m_def)
  have p: "prepare_for_qdrant (Milvus demo_m) =
      PItem \<lparr> item_id = ''m'', vector = Some [0, 1],
              payload = Some [(''user_id'', PStr ''u1''), (''memory'', PStr ''likes tea''),
                              (''original_text'', PStr ''I like tea'')],
              score = None \<rparr>"
    by (simp add: prepare_for_qdrant_def demo_m_def or_empty_def)
  from prepare_then_to_milvus [OF m _ o] m o p show ?thesis by simp
qed

section \<open>Optional searches of the graph store\<close>

text \<open>
  Claim C9. The bodies that \<^verbatim>\<open>BaseGraphDB\<close> gives \<^verbatim>\<open>search_by_fulltext\<close>,
  \<^verbatim>\<open>search_by_keywords_like\<close> and \<^verbatim>\<open>search_by_keywords_tfidf\<close> return the empty list for
  every input.
\<close>

theorem optional_searches_empty:
  "search_by_fulltext query_words top_k kwargs = [] \<and>
   search_by_keywords_like query_word kwargs = [] \<and>
   search_by_keywords_tfidf query_words kwargs = []"
  by (simp add: search_by_fulltext_def search_by_keywords_like_def search_by_keywords_tfidf_def)


section \<open>Unknown collections\<close>

lemma unknown_iff: "n \<notin> set (list_collections r) \<longleftrightarrow> map_of (instances r) n = None"
  by (simp add: list_collections_def map_of_eq_None_iff)

lemma fold_init_one_config: "config (fold (init_one ops) ns r) = config r"
  by (induction ns arbitrary: r) (simp_all add: init_one_def)

lemma fold_init_one_keys:
  "fst ` set (instances (fold (init_one ops) ns r)) = fst ` set (instances r) \<union> set ns"
  by (induction ns arbitrary: r) (auto simp: init_one_def dom_update)

lemma fold_init_one_distinct:
  "distinct (map fst (instances r)) \<Longrightarrow>
   distinct (map fst (instances (fold (init_one ops) ns r)))"
  by (induction ns arbitrary: r) (simp_all add: init_one_def distinct_update)

lemma init_config: "config (init ops c) = c"
  by (simp add: init_def fold_init_one_config)

lemma init_ok: "router_ok (init ops c)"
  by (simp add: router_ok_def init_config)
     (simp add: init_def fold_init_one_keys fold_init_one_distinct)

lemma put_inst_keys:
  "map_of (instances r) n = Some inst \<Longrightarrow>
   fst ` set (instances (put_inst r n inst')) = fst ` set (instances r)"
  by (auto simp: put_inst_def dom_update dest: map_of_SomeD intro: rev_image_eqI)

lemma put_inst_ok:
  "router_ok r \<Longrightarrow> map_of (instances r) n = Some inst \<Longrightarrow> router_ok (put_inst r n inst')"
  using put_inst_keys [of r n inst inst']
  by (simp add: router_ok_def) (simp add: put_inst_def distinct_update)

lemma add_known:
  "map_of (instances r) n = Some inst \<Longrightarrow>
   add ops n data r = (Inr (), put_inst r n (q_add ops inst (map prepare_for_qdrant data)))"
  by (simp add: add_def get_inst_known)

lemma update_known:
  "map_of (instances r) n = Some inst \<Longrightarrow>
   update ops n i d r = (Inr (), put_inst r n (q_update ops inst i (prepare_for_qdrant d)))"
  by (simp add: update_def get_inst_known)

lemma upsert_known:
  "map_of (instances r) n = Some inst \<Longrightarrow>
   upsert ops n data r = (Inr (), put_inst r n (q_upsert ops inst (map prepare_for_qdrant data)))"
  by (simp add: upsert_def get_inst_known)

lemma delete_known:
  "map_of (instances r) n = Some inst \<Longrightarrow>
   delete ops n ids r = (Inr (), put_inst r n (q_delete ops inst ids))"
  by (simp add: delete_def get_inst_known)

text \<open>
  Claim C2. On a router whose instances are those of its configuration (as \<^verbatim>\<open>__init__\<close>
  leaves them), each of \<^verbatim>\<open>search\<close>, \<^verbatim>\<open>get_by_id\<close>, \<^verbatim>\<open>get_by_ids\<close>, \<^verbatim>\<open>get_by_filter\<close>,
  \<^verbatim>\<open>get_all\<close>, \<^verbatim>\<open>count\<close>, \<^verbatim>\<open>add\<close>, \<^verbatim>\<open>update\<close>, \<^verbatim>\<open>upsert\<close>, \<^verbatim>\<open>delete\<close> and
  \<^verbatim>\<open>delete_by_filter\<close>, called with a collection name that is not among the configured
  names, raises the error of \<^verbatim>\<open>_get\<close>, which carries the name asked for and the list of
  the known names, and the router with every backend instance is as it was before the
  call, whatever the backend is.
\<close>

theorem unknown_collection_raises:
  "router_ok r \<Longrightarrow> n \<notin> set (mc_collection_name (config r)) \<Longrightarrow>
   set (list_collections r) = set (mc_collection_name (config r)) \<and>
   search ops qv q n k flt st r = (Inl (ValueError n (list_collections r)), r) \<and>
   get_by_id ops n i r = (Inl (ValueError n (list_collections r)), r) \<and>
   get_by_ids ops n ids r = (Inl (ValueError n (list_collections r)), r) \<and>
   get_by_filter ops n flt lmt r = (Inl (ValueError n (list_collections r)), r) \<and>
   get_all ops n lmt r = (Inl (ValueError n (list_collections r)), r) \<and>
   count ops n flt r = (Inl (ValueError n (list_collections r)), r) \<and>
   add ops n data r = (Inl (ValueError n (list_collections r)), r) \<and>
   update ops n i d r = (Inl (ValueError n (list_collections r)), r) \<and>
   upsert ops n data r = (Inl (ValueError n (list_collections r)), r) \<and>
   delete ops n ids r = (Inl (ValueError n (list_collections r)), r) \<and>
   delete_by_filter ops n flt r = (Inl (ValueError n (list_collections r)), r)"
proof -
  assume ok: "router_ok r" and n: "n \<notin> set (mc_collection_name (config r))"
  from ok have keys: "set (list_collections r) = set (mc_collection_name (config r))"
    by (simp add: router_ok_def list_collections_def)
  with n have "map_of (instances r) n = None"
    by (simp add: unknown_iff [symmetric])
  then have g: "get_inst r n = Inl (ValueError n (list_collections r))"
    by (rule get_inst_unknown)
  show ?thesis
    by (simp add: keys g search_def get_by_id_def get_by_ids_def get_by_filter_def get_all_def
        count_def add_def update_def upsert_def delete_def delete_by_filter_def)
qed

theorem unknown_collection_raises_witness:
  "router_ok demo_router \<and> ''other'' \<notin> set (mc_collection_name (config demo_router)) \<and>
   list_collections demo_router = [''explicit'', ''implicit''] \<and>
   search (mem 100) [1, 0] ''q'' ''other'' 5 None ''dense'' demo_router =
     (Inl (ValueError ''other'' [''explicit'', ''implicit'']), demo_router) \<and>
   delete_by_filter (mem 100) ''other'' None demo_router =
     (Inl (ValueError ''other'' [''explicit'', ''implicit'']), demo_router)"
proof -
  have ok: "router_ok demo_router"
    unfolding demo_router_def by (rule init_ok)
  have n: "''other'' \<notin> set (mc_collection_name (config demo_router))"
    by (simp add: demo_router_def init_config demo_config_def)
  have l: "list_collections demo_router = [''explicit'', ''implicit'']"
    by (simp add: list_collections_def demo_router_def init_def init_one_def demo_config_def)
  from unknown_collection_raises [OF ok n, of "mem 100" "[1, 0]" "''q''" 5 None "''dense''"]
  have "search (mem 100) [1, 0] ''q'' ''other'' 5 None ''dense'' demo_router =
          (Inl (ValueError ''other'' (list_collections demo_router)), demo_router) \<and>
        delete_by_filter (mem 100) ''other'' None demo_router =
          (Inl (ValueError ''other'' (list_collections demo_router)), demo_router)"
    by blast
  with ok n l show ?thesis by simp
qed

section \<open>Filters the flat form cannot express\<close>





text \<open>
  On a backend that always returns, the four methods are the ones defined first.
\<close>

lemma exc_on_returning:
  "search_exc (returning ops) qv q n k flt st r =
     (map_sum Router_raised id (fst (search ops qv q n k flt st r)),
      snd (search ops qv q n k flt st r))"
  "get_by_filter_exc (returning ops) n flt lmt r =
     (map_sum Router_raised id (fst (get_by_filter ops n flt lmt r)),
      snd (get_by_filter ops n flt lmt r))"
  "count_exc (returning ops) n flt r =
     (map_sum Router_raised id (fst (count ops n flt r)), snd (count ops n flt r))"
  "delete_by_filter_exc (returning ops) n flt r =
     (map_sum Router_raised id (fst (delete_by_filter ops n flt r)),
      snd (delete_by_filter ops n flt r))"
  by (simp_all add: search_exc_def search_def get_by_filter_exc_def get_by_filter_def
      count_exc_def count_def delete_by_filter_exc_def delete_by_filter_def returning_def
      Let_def split: sum.splits prod.splits)




section \<open>Deleting by filter\<close>

lemma put_inst_same: "map_of (instances (put_inst r n b)) n = Some b"
  by (simp add: put_inst_def update_conv')

lemma put_inst_other: "m \<noteq> n \<Longrightarrow> map_of (instances (put_inst r n b)) m = map_of (instances r) m"
  by (simp add: put_inst_def update_conv')

lemma put_inst_logged: "logged (put_inst r n b) = logged r"
  by (simp add: put_inst_def)

text \<open>
  Claim C5. On a known collection \<^verbatim>\<open>delete_by_filter\<close> succeeds and does this and no more:
  it scans the addressed instance with the flattened filter (the empty dict when nothing
  remains); when the scan gives no item, the instance is as the scan left it and nothing
  is logged; otherwise it deletes, on the instance as the scan left it, the ids of the
  scanned items, in order, and logs how many items they were. No other instance changes.
\<close>

theorem delete_by_filter_scans_then_deletes:
  "map_of (instances r) n = Some inst \<Longrightarrow>
   (let flat = or_empty (flatten_milvus_filter flt);
        items = fst (q_get_by_filter ops inst flat None);
        inst1 = snd (q_get_by_filter ops inst flat None);
        r' = snd (delete_by_filter ops n flt r)
    in fst (delete_by_filter ops n flt r) = Inr () \<and>
       map_of (instances r') n =
         Some (if items = [] then inst1 else q_delete ops inst1 (map item_id items)) \<and>
       logged r' = logged r @ (if items = [] then [] else [Deleted (length items) n]) \<and>
       (\<forall>m. m \<noteq> n \<longrightarrow> map_of (instances r') m = map_of (instances r) m))"
  by (simp add: delete_by_filter_known Let_def put_inst_same put_inst_other put_inst_logged)

theorem delete_by_filter_scans_then_deletes_witness:
  "map_of (instances demo_loaded) ''explicit'' = Some demo_store \<and>
   q_get_by_filter (mem 100) demo_store [(''user_id'', PStr ''u1'')] None =
     ([demo_a], called (Get_by_filter [(''user_id'', PStr ''u1'')] None) demo_store) \<and>
   map_of (instances (snd (delete_by_filter (mem 100) ''explicit''
        (Some [(''and'', PList [PDict [(''user_id'', PStr ''u1'')]])]) demo_loaded))) ''explicit'' =
     Some \<lparr> held = [demo_b],
            calls = [Get_by_filter [(''user_id'', PStr ''u1'')] None, Delete_ids [''a'']] \<rparr> \<and>
   logged (snd (delete_by_filter (mem 100) ''explicit''
        (Some [(''and'', PList [PDict [(''user_id'', PStr ''u1'')]])]) demo_loaded)) =
     [Deleted 1 ''explicit'']"
proof -
  have k: "map_of (instances demo_loaded) ''explicit'' = Some demo_store"
    by (simp add: demo_loaded_def)
  have fl: "or_empty (flatten_milvus_filter (Some [(''and'', PList [PDict [(''user_id'', PStr ''u1'')]])]))
      = [(''user_id'', PStr ''u1'')]"
    by (simp add: flatten_milvus_filter_def dict_update_def or_empty_def)
  have s: "q_get_by_filter (mem 100) demo_store [(''user_id'', PStr ''u1'')] None =
     ([demo_a], called (Get_by_filter [(''user_id'', PStr ''u1'')] None) demo_store)"
    by (simp add: mem_def scan_def matches_def or_empty_def demo_store_def demo_a_def demo_b_def)
  have d: "q_delete (mem 100) (called (Get_by_filter [(''user_id'', PStr ''u1'')] None) demo_store)
        [''a''] =
      \<lparr> held = [demo_b],
        calls = [Get_by_filter [(''user_id'', PStr ''u1'')] None, Delete_ids [''a'']] \<rparr>"
    by (simp add: mem_def called_def without_def demo_store_def demo_a_def demo_b_def)
  have l: "logged demo_loaded = []"
    by (simp add: demo_loaded_def)
  from delete_by_filter_scans_then_deletes [OF k, where ops = "mem 100"
      and flt = "Some [(''and'', PList [PDict [(''user_id'', PStr ''u1'')]])]"]
  show ?thesis
    by (simp add: k fl s d l Let_def demo_a_def)
qed

section \<open>Routing leaves the other instances alone\<close>

lemma routed_elsewhere:
  "m \<noteq> n \<Longrightarrow>
   map_of (instances (snd (search ops qv q n k flt st r))) m = map_of (instances r) m \<and>
   map_of (instances (snd (get_by_id ops n i r))) m = map_of (instances r) m \<and>
   map_of (instances (snd (get_by_ids ops n ids r))) m = map_of (instances r) m \<and>
   map_of (instances (snd (get_by_filter ops n flt lmt r))) m = map_of (instances r) m \<and>
   map_of (instances (snd (get_all ops n lmt r))) m = map_of (instances r) m \<and>
   map_of (instances (snd (count ops n flt r))) m = map_of (instances r) m \<and>
   map_of (instances (snd (add ops n data r))) m = map_of (instances r) m \<and>
   map_of (instances (snd (update ops n i d r))) m = map_of (instances r) m \<and>
   map_of (instances (snd (upsert ops n data r))) m = map_of (instances r) m \<and>
   map_of (instances (snd (delete ops n ids r))) m = map_of (instances r) m \<and>
   map_of (instances (snd (delete_by_filter ops n flt r))) m = map_of (instances r) m"
proof (cases "map_of (instances r) n")
  case None
  then have "get_inst r n = Inl (ValueError n (list_collections r))"
    by (rule get_inst_unknown)
  then show ?thesis
    by (simp add: search_def get_by_id_def get_by_ids_def get_by_filter_def get_all_def
        count_def add_def update_def upsert_def delete_def delete_by_filter_def)
next
  case (Some inst)
  assume "m \<noteq> n"
  then show ?thesis
    by (simp add: search_known [OF Some] get_by_id_known [OF Some] get_by_ids_known [OF Some]
        get_by_filter_known [OF Some] get_all_known [OF Some] count_known [OF Some]
        add_known [OF Some] update_known [OF Some] upsert_known [OF Some]
        delete_known [OF Some] delete_by_filter_known [OF Some] Let_def put_inst_other)
qed

lemma router_ok_logged: "router_ok (r\<lparr> logged := l \<rparr>) = router_ok r"
  by (simp add: router_ok_def)

lemma routed_keeps_ok:
  "router_ok r \<Longrightarrow>
   router_ok (snd (search ops qv q n k flt st r)) \<and>
   router_ok (snd (get_by_id ops n i r)) \<and>
   router_ok (snd (get_by_ids ops n ids r)) \<and>
   router_ok (snd (get_by_filter ops n flt lmt r)) \<and>
   router_ok (snd (get_all ops n lmt r)) \<and>
   router_ok (snd (count ops n flt r)) \<and>
   router_ok (snd (add ops n data r)) \<and>
   router_ok (snd (update ops n i d r)) \<and>
   router_ok (snd (upsert ops n data r)) \<and>
   router_ok (snd (delete ops n ids r)) \<and>
   router_ok (snd (delete_by_filter ops n flt r))"
proof (cases "map_of (instances r) n")
  case None
  assume ok: "router_ok r"
  from None have "get_inst r n = Inl (ValueError n (list_collections r))"
    by (rule get_inst_unknown)
  with ok show ?thesis
    by (simp add: search_def get_by_id_def get_by_ids_def get_by_filter_def get_all_def
        count_def add_def update_def upsert_def delete_def delete_by_filter_def)
next
  case (Some inst)
  assume ok: "router_ok r"
  have p: "router_ok (put_inst r n b)" for b
    using ok Some by (rule put_inst_ok)
  show ?thesis
    by (simp add: search_known [OF Some] get_by_id_known [OF Some] get_by_ids_known [OF Some]
        get_by_filter_known [OF Some] get_all_known [OF Some] count_known [OF Some]
        add_known [OF Some] update_known [OF Some] upsert_known [OF Some]
        delete_known [OF Some] delete_by_filter_known [OF Some] Let_def p router_ok_logged)
qed

lemma broadcast_keeps_ok:
  "router_ok r \<Longrightarrow>
   router_ok (create_collection ops r) \<and> router_ok (ensure_payload_indexes ops flds r)"
  by (simp add: router_ok_def create_collection_def ensure_payload_indexes_def
      case_prod_unfold comp_def image_image)

section \<open>Payload indexes\<close>

text \<open>
  Claim C6, as amended. \<^verbatim>\<open>ensure_payload_indexes\<close> takes the list of fields and no
  collection name: it calls \<^verbatim>\<open>ensure_payload_indexes\<close> with these fields on the backend
  instance of every collection, and leaves the set of collections, the configuration and
  the log as they were. Each of the other listed operations, called for the collection
  \<open>n\<close>, leaves the instance of every other collection \<open>m\<close> as it was.
\<close>

theorem ensure_payload_indexes_on_every_instance:
  "map_of (instances (ensure_payload_indexes ops flds r)) m =
     map_option (\<lambda>inst. q_ensure_payload_indexes ops inst flds) (map_of (instances r) m) \<and>
   list_collections (ensure_payload_indexes ops flds r) = list_collections r \<and>
   config (ensure_payload_indexes ops flds r) = config r \<and>
   logged (ensure_payload_indexes ops flds r) = logged r \<and>
   (m \<noteq> n \<longrightarrow>
      map_of (instances (snd (search ops qv q n k flt st r))) m = map_of (instances r) m \<and>
      map_of (instances (snd (get_by_id ops n i r))) m = map_of (instances r) m \<and>
      map_of (instances (snd (get_by_ids ops n ids r))) m = map_of (instances r) m \<and>
      map_of (instances (snd (get_by_filter ops n flt lmt r))) m = map_of (instances r) m \<and>
      map_of (instances (snd (get_all ops n lmt r))) m = map_of (instances r) m \<and>
      map_of (instances (snd (count ops n flt r))) m = map_of (instances r) m \<and>
      map_of (instances (snd (add ops n data r))) m = map_of (instances r) m \<and>
      map_of (instances (snd (update ops n i d r))) m = map_of (instances r) m \<and>
      map_of (instances (snd (upsert ops n data r))) m = map_of (instances r) m \<and>
      map_of (instances (snd (delete ops n ids r))) m = map_of (instances r) m \<and>
      map_of (instances (snd (delete_by_filter ops n flt r))) m = map_of (instances r) m)"
proof -
  have a: "map_of (instances (ensure_payload_indexes ops flds r)) m =
      map_option (\<lambda>inst. q_ensure_payload_indexes ops inst flds) (map_of (instances r) m)"
    by (simp add: ensure_payload_indexes_def map_of_map comp_def)
  have b: "list_collections (ensure_payload_indexes ops flds r) = list_collections r"
    by (simp add: ensure_payload_indexes_def list_collections_def case_prod_unfold comp_def)
  have c: "config (ensure_payload_indexes ops flds r) = config r"
    "logged (ensure_payload_indexes ops flds r) = logged r"
    by (simp_all add: ensure_payload_indexes_def)
  from a b c routed_elsewhere [of m n ops qv q k flt st r i ids lmt data d]
  show ?thesis by blast
qed

theorem ensure_payload_indexes_on_every_instance_witness:
  "''implicit'' \<noteq> ''explicit'' \<and>
   map_of (instances (snd (delete (mem 100) ''explicit'' [''a''] demo_loaded))) ''implicit'' =
     Some \<lparr> held = [], calls = [] \<rparr> \<and>
   map_option calls
     (map_of (instances (ensure_payload_indexes (mem 100) [''user_id''] demo_loaded)) ''implicit'') =
     Some [Ensure_payload_indexes [''user_id'']]"
proof -
  have ne: "''implicit'' \<noteq> ''explicit''"
    by simp
  have i: "map_of (instances demo_loaded) ''implicit'' = Some \<lparr> held = [], calls = [] \<rparr>"
    by (simp add: demo_loaded_def)
  have e: "q_ensure_payload_indexes (mem 100) \<lparr> held = [], calls = [] \<rparr> [''user_id''] =
      \<lparr> held = [], calls = [Ensure_payload_indexes [''user_id'']] \<rparr>"
    by (simp add: mem_def called_def)
  from ensure_payload_indexes_on_every_instance
    [where m = "''implicit''" and n = "''explicit''" and r = demo_loaded and ops = "mem 100"
      and flds = "[''user_id'']" and ids = "[''a'']"] ne
  have "map_of (instances (ensure_payload_indexes (mem 100) [''user_id''] demo_loaded)) ''implicit'' =
      map_option (\<lambda>inst. q_ensure_payload_indexes (mem 100) inst [''user_id''])
        (map_of (instances demo_loaded) ''implicit'') \<and>
    map_of (instances (snd (delete (mem 100) ''explicit'' [''a''] demo_loaded))) ''implicit'' =
      map_of (instances demo_loaded) ''implicit''"
    by blast
  with ne i e show ?thesis by simp
qed

text \<open>
  The claim as first stated has one addressed instance called and every other instance
  untouched. On a router with two collections, both instances receive the call.
\<close>

theorem ensure_payload_indexes_counterexample:
  "map (\<lambda>(n, b). (n, calls b))
     (instances (ensure_payload_indexes (mem 100) [''user_id''] demo_loaded)) =
   [(''explicit'', [Ensure_payload_indexes [''user_id'']]),
    (''implicit'', [Ensure_payload_indexes [''user_id'']])]"
  by (simp add: ensure_payload_indexes_def demo_loaded_def demo_store_def mem_def called_def)


section \<open>Batched embedding in the retriever\<close>

lemma nth_indexed_zip:
  "i < length es \<Longrightarrow> i < length vs \<Longrightarrow>
   map (\<lambda>(j, en, v). F j en v) (enumerate 0 (zip es vs)) ! i = F i (es ! i) (vs ! i)"
  by (simp add: nth_enumerate_eq)

lemma make_item_fields:
  "md_embedding (tm_metadata (make_item u s d t uid en v)) = v"
  "tm_memory (make_item u s d t uid en v) = content en"
  by (simp_all add: make_item_def)

lemma recording_once:
  "recording embedder (e, []) texts = (fst (embedder e texts), snd (embedder e texts), [texts])"
  by (simp add: recording_def case_prod_unfold Let_def)

text \<open>
  Claim C7. When the search gives a non-empty result list, \<^verbatim>\<open>retrieve_from_internet\<close>
  calls the embedder exactly once, with the list of the memory texts of all results in
  result order; it returns as many items as there are results and returned vectors
  (the fewer of the two), and the \<open>i\<close>-th item holds the \<open>i\<close>-th text and the \<open>i\<close>-th
  returned vector.
\<close>

theorem retrieve_embeds_in_one_batch:
  "api_search http api query (Some top_k) \<noteq> [] \<Longrightarrow>
   (let results = api_search http api query (Some top_k);
        texts = map (\<lambda>res. content (make_entry goal res)) results;
        vs = fst (embedder e texts);
        out = retrieve_from_internet http (recording embedder) uuids now_str now_iso api query
                top_k goal info mode (e, [])
    in snd (snd out) = [texts] \<and>
       fst (snd out) = snd (embedder e texts) \<and>
       length (fst out) = min (length results) (length vs) \<and>
       (\<forall>i < length (fst out).
          md_embedding (tm_metadata (fst out ! i)) = vs ! i \<and> tm_memory (fst out ! i) = texts ! i))"
proof -
  assume ne: "api_search http api query (Some top_k) \<noteq> []"
  define results where "results = api_search http api query (Some top_k)"
  define entries where "entries = map (make_entry goal) results"
  define texts where "texts = map (\<lambda>res. content (make_entry goal res)) results"
  define vs where "vs = fst (embedder e texts)"
  define out where "out = retrieve_from_internet http (recording embedder) uuids now_str now_iso
      api query top_k goal info mode (e, [])"
  have t: "map content entries = texts"
    by (simp add: entries_def texts_def)
  obtain F where items: "fst out = map (\<lambda>(j, en, v). F j en v) (enumerate 0 (zip entries vs))"
    and F: "\<And>j en v. md_embedding (tm_metadata (F j en v)) = v \<and> tm_memory (F j en v) = content en"
    and st: "snd out = (snd (embedder e texts), [texts])"
  proof -
    let ?inf = "case info of None \<Rightarrow> no_info | Some d \<Rightarrow> if d = [] then no_info else d"
    let ?F = "\<lambda>j en v. make_item (str_get ?inf ''user_id'' []) (str_get ?inf ''session_id'' [])
        now_str now_iso (uuids j) en v"
    have "out = (map (\<lambda>(j, en, v). ?F j en v) (enumerate 0 (zip entries vs)),
                 snd (embedder e texts), [texts])"
      using ne
      by (simp add: out_def retrieve_from_internet_def Let_def recording_once t
          results_def [symmetric] entries_def [symmetric] vs_def)
    then show ?thesis
      by (intro that [of ?F]) (simp_all add: make_item_fields)
  qed
  have len: "length (fst out) = min (length results) (length vs)"
    by (simp add: items entries_def)
  have nth: "md_embedding (tm_metadata (fst out ! i)) = vs ! i \<and> tm_memory (fst out ! i) = texts ! i"
    if "i < length (fst out)" for i
  proof -
    from that len have i: "i < length entries" "i < length vs"
      by (simp_all add: entries_def)
    have "fst out ! i = F i (entries ! i) (vs ! i)"
      unfolding items by (rule nth_indexed_zip [OF i])
    moreover have "content (entries ! i) = texts ! i"
      using i(1) by (simp add: t [symmetric])
    ultimately show ?thesis by (simp add: F)
  qed
  show ?thesis
    using st len nth
    by (simp add: Let_def results_def [symmetric] texts_def [symmetric] vs_def [symmetric]
        out_def [symmetric])
qed

theorem retrieve_embeds_in_one_batch_witness:
  "api_search demo_http demo_api ''q'' (Some 5) \<noteq> [] \<and>
   snd (snd (retrieve_from_internet demo_http (recording demo_embed) demo_uuids ''2026-01-01''
               ''2026-01-01T00:00:00'' demo_api ''q'' 5 None None ''fast'' ((), []))) =
     [map (\<lambda>res. content (make_entry None res)) (api_search demo_http demo_api ''q'' (Some 5))] \<and>
   length (fst (retrieve_from_internet demo_http (recording demo_embed) demo_uuids ''2026-01-01''
               ''2026-01-01T00:00:00'' demo_api ''q'' 5 None None ''fast'' ((), []))) = 2 \<and>
   map (\<lambda>item. md_embedding (tm_metadata item))
     (fst (retrieve_from_internet demo_http (recording demo_embed) demo_uuids ''2026-01-01''
               ''2026-01-01T00:00:00'' demo_api ''q'' 5 None None ''fast'' ((), []))) =
     [[38], [28]]"
proof -
  have r: "api_search demo_http demo_api ''q'' (Some 5) =
      [[(''title'', ''T1''), (''url'', ''http://x''), (''content'', ''C1'')], [(''title'', ''T2'')]]"
    by (simp add: api_search_def demo_http_def py_prefix_def)
  then have ne: "api_search demo_http demo_api ''q'' (Some 5) \<noteq> []"
    by simp
  have v: "fst (demo_embed () (map (\<lambda>res. content (make_entry None res))
        (api_search demo_http demo_api ''q'' (Some 5)))) = [[38], [28]]"
    by (simp add: r demo_embed_def make_entry_def str_get_def Let_def)
  let ?out = "retrieve_from_internet demo_http (recording demo_embed) demo_uuids ''2026-01-01''
               ''2026-01-01T00:00:00'' demo_api ''q'' 5 None None ''fast'' ((), [])"
  from retrieve_embeds_in_one_batch [OF ne, where embedder = demo_embed and e = "()"
      and uuids = demo_uuids and now_str = "''2026-01-01''" and now_iso = "''2026-01-01T00:00:00''"
      and goal = None and info = None and mode = "''fast''"]
  have a: "snd (snd ?out) =
        [map (\<lambda>res. content (make_entry None res)) (api_search demo_http demo_api ''q'' (Some 5))]"
    and b: "length (fst ?out) = 2"
    and c: "\<forall>i < length (fst ?out). md_embedding (tm_metadata (fst ?out ! i)) = [[38], [28]] ! i"
    by (simp_all add: Let_def v) (simp add: r)
  from b c have "map (\<lambda>item. md_embedding (tm_metadata item)) (fst ?out) = [[38], [28]]"
    by (intro nth_equalityI) simp_all
  with ne a b show ?thesis by simp
qed


section \<open>Filters that flatten to nothing\<close>

lemma merge_parts_all_None: "list_all (\<lambda>c. c = PNone) cs \<Longrightarrow> merge_parts cs flat = flat"
  by (induction cs) simp_all

lemma flatten_all_None:
  "list_all (\<lambda>c. c = PNone) cs \<Longrightarrow> flatten_milvus_filter (Some [(''and'', PList cs)]) = None"
  by (simp add: flatten_milvus_filter_def merge_parts_all_None)

lemma matches_empty: "matches [] item"
  by (simp add: matches_def)

lemma scan_empty: "scan [] lmt items = take (nat lmt) items"
  by (simp add: scan_def matches_empty)

lemma mem_get_by_filter:
  "q_get_by_filter (mem dflt) b f lmt =
     (scan f (case lmt of None \<Rightarrow> dflt | Some l \<Rightarrow> l) (held b), called (Get_by_filter f lmt) b)"
  by (simp add: mem_def)

lemma mem_delete:
  "q_delete (mem dflt) b ids = called (Delete_ids ids) (b\<lparr> held := without ids (held b) \<rparr>)"
  by (simp add: mem_def)

lemma held_called: "held (called c b) = held b"
  by (simp add: called_def)

text \<open>
  A filter that is \<^verbatim>\<open>None\<close>, \<^verbatim>\<open>{"and": []}\<close> or \<^verbatim>\<open>{"and": [None, ...]}\<close> flattens to
  \<^verbatim>\<open>None\<close>. For a filter that flattens to \<^verbatim>\<open>None\<close>, on a known collection,
  \<^verbatim>\<open>get_by_filter\<close> and \<^verbatim>\<open>delete_by_filter\<close> do for every backend exactly what they do for
  the empty dict, and neither fails. How many records a scan with the empty dict returns
  is the backend's matter: on the store of this theory, whose scan stops at the scroll
  limit, \<^verbatim>\<open>get_by_filter\<close> returns the first \<open>lmt\<close> records and \<^verbatim>\<open>delete_by_filter\<close>
  removes the ids of the first \<open>dflt\<close> records.
\<close>

lemma vacuous_filter_as_empty_dict:
  "flatten_milvus_filter None = None \<and>
   flatten_milvus_filter (Some [(''and'', PList [])]) = None \<and>
   (list_all (\<lambda>c. c = PNone) cs \<longrightarrow> flatten_milvus_filter (Some [(''and'', PList cs)]) = None) \<and>
   (flatten_milvus_filter flt = None \<longrightarrow> map_of (instances r) n = Some inst \<longrightarrow>
      get_by_filter ops n flt lmt r = get_by_filter ops n (Some []) lmt r \<and>
      delete_by_filter ops n flt r = delete_by_filter ops n (Some []) r \<and>
      fst (get_by_filter (mem dflt) n flt lmt r) =
        Inr (map to_milvus_item (take (nat lmt) (held inst))) \<and>
      fst (delete_by_filter (mem dflt) n flt r) = Inr () \<and>
      map_option held (map_of (instances (snd (delete_by_filter (mem dflt) n flt r))) n) =
        Some (without (map item_id (take (nat dflt) (held inst))) (held inst)))"
proof (intro conjI impI)
  show "flatten_milvus_filter None = None"
    by (simp add: flatten_milvus_filter_def)
  show "flatten_milvus_filter (Some [(''and'', PList [])]) = None"
    by (simp add: flatten_milvus_filter_def)
next
  assume "list_all (\<lambda>c. c = PNone) cs"
  then show "flatten_milvus_filter (Some [(''and'', PList cs)]) = None"
    by (rule flatten_all_None)
next
  assume v: "flatten_milvus_filter flt = None" and k: "map_of (instances r) n = Some inst"
  have e: "or_empty (flatten_milvus_filter flt) = []"
    by (simp add: v or_empty_def)
  have e': "or_empty (flatten_milvus_filter (Some [])) = []"
    by (simp add: or_empty_def flatten_milvus_filter_def)
  show "get_by_filter ops n flt lmt r = get_by_filter ops n (Some []) lmt r"
    unfolding get_by_filter_def e e' by (rule refl)
  show "delete_by_filter ops n flt r = delete_by_filter ops n (Some []) r"
    unfolding delete_by_filter_def e e' by (rule refl)
  show "fst (get_by_filter (mem dflt) n flt lmt r) =
      Inr (map to_milvus_item (take (nat lmt) (held inst)))"
    by (simp add: get_by_filter_known [OF k] e mem_get_by_filter scan_empty)
  show "fst (delete_by_filter (mem dflt) n flt r) = Inr ()"
    by (simp add: delete_by_filter_known [OF k] Let_def)
  show "map_option held (map_of (instances (snd (delete_by_filter (mem dflt) n flt r))) n) =
      Some (without (map item_id (take (nat dflt) (held inst))) (held inst))"
    by (simp add: delete_by_filter_known [OF k] e Let_def mem_get_by_filter mem_delete
        scan_empty put_inst_same held_called without_def)
qed

lemma vacuous_filter_as_empty_dict_example:
  "list_all (\<lambda>c. c = PNone) [PNone, PNone] \<and>
   flatten_milvus_filter (Some [(''and'', PList [PNone, PNone])]) = None \<and>
   map_of (instances demo_loaded) ''explicit'' = Some demo_store \<and>
   held demo_store = [demo_a, demo_b] \<and>
   fst (get_by_filter (mem 100) ''explicit'' (Some [(''and'', PList [PNone, PNone])]) 1
          demo_loaded) = Inr [to_milvus_item demo_a] \<and>
   fst (delete_by_filter (mem 100) ''explicit'' (Some [(''and'', PList [PNone, PNone])])
          demo_loaded) = Inr () \<and>
   map_option held (map_of (instances (snd (delete_by_filter (mem 100) ''explicit''
        (Some [(''and'', PList [PNone, PNone])]) demo_loaded))) ''explicit'') = Some []"
proof -
  have a: "list_all (\<lambda>c. c = PNone) [PNone, PNone]"
    by simp
  have k: "map_of (instances demo_loaded) ''explicit'' = Some demo_store"
    by (simp add: demo_loaded_def)
  have h: "held demo_store = [demo_a, demo_b]"
    by (simp add: demo_store_def)
  have w: "without (map item_id (take (nat 100) [demo_a, demo_b])) [demo_a, demo_b] = []"
    by (simp add: without_def demo_a_def demo_b_def)
  from vacuous_filter_as_empty_dict [where cs = "[PNone, PNone]"] a
  have v: "flatten_milvus_filter (Some [(''and'', PList [PNone, PNone])]) = None"
    by blast
  from vacuous_filter_as_empty_dict
    [where flt = "Some [(''and'', PList [PNone, PNone])]" and r = demo_loaded
      and n = "''explicit''" and inst = demo_store and dflt = 100 and lmt = 1] v k
  have "fst (get_by_filter (mem 100) ''explicit'' (Some [(''and'', PList [PNone, PNone])]) 1
          demo_loaded) = Inr (map to_milvus_item (take (nat 1) (held demo_store))) \<and>
   fst (delete_by_filter (mem 100) ''explicit'' (Some [(''and'', PList [PNone, PNone])])
          demo_loaded) = Inr () \<and>
   map_option held (map_of (instances (snd (delete_by_filter (mem 100) ''explicit''
        (Some [(''and'', PList [PNone, PNone])]) demo_loaded))) ''explicit'') =
     Some (without (map item_id (take (nat 100) (held demo_store))) (held demo_store))"
    by blast
  with a v k h w show ?thesis by simp
qed


end
